theory Spec2Isabelle
  imports Main "HOL-Library.Word"
begin

section \<open>Data model of the ZkSolvencyFHE contract\<close>

text \<open>
  Solidity value types. An \<open>euint32\<close> is a user-defined value type over \<open>bytes32\<close>: an
  opaque handle of a ciphertext. Unsigned comparison and wrap-around addition are those
  of \<open>'a word\<close>; Solidity 0.8 checks every addition and reverts with a panic on overflow,
  which \<open>checked_add\<close> writes out.
\<close>

type_synonym address = "160 word"
type_synonym uint256 = "256 word"
type_synonym uint32 = "32 word"
type_synonym bytes32 = "256 word"
type_synonym euint32 = "256 word"
type_synonym bytes = "8 word list"

record LoanApplication =
  encryptedAssets :: euint32
  encryptedLiabilities :: euint32
  encryptedSolvencyProof :: euint32

record DecryptionContext =
  batchId :: uint256
  stateHash :: bytes32
  processed :: bool

datatype event =
    OwnershipTransferred address address
  | ProviderAdded address
  | ProviderRemoved address
  | PauseToggled bool
  | CooldownSecondsUpdated uint256 uint256
  | BatchOpened uint256
  | BatchClosed uint256
  | LoanApplicationSubmitted address uint256 euint32 euint32 euint32
  | DecryptionRequested uint256 uint256
  | DecryptionCompleted uint256 uint256 uint32 uint32 uint32

text \<open>
  The ten custom errors of the contract, the revert with a reason string
  (\<open>revert("Ciphertext not initialized")\<close>), the panic of checked arithmetic, and the
  plain revert of a failed \<open>abi.decode\<close> or an out-of-range slice.
\<close>

datatype error =
    NotOwner
  | NotProvider
  | Paused
  | CooldownActive
  | BatchNotOpen
  | BatchAlreadyOpen
  | InvalidBatch
  | ReplayAttempt
  | StateMismatch
  | DecryptionFailed
  | Error string
  | Panic
  | Revert

text \<open>
  The storage of the contract, with the event log as its last field. A Solidity mapping
  is total: a key never written reads as the zero value of the value type.
\<close>

record state =
  owner :: address
  isProvider :: "address \<Rightarrow> bool"
  paused :: bool
  cooldownSeconds :: uint256
  lastSubmissionTime :: "address \<Rightarrow> uint256"
  lastDecryptionRequestTime :: "address \<Rightarrow> uint256"
  currentBatchId :: uint256
  batchOpen :: bool
  loanApplications :: "uint256 \<Rightarrow> LoanApplication"
  decryptionContexts :: "uint256 \<Rightarrow> DecryptionContext"
  events :: "event list"

text \<open>
  The parts of the imported FHE library and of the EVM that the contract calls and whose
  code is not in the repository are parameters of the model: the hash
  \<open>keccak256(abi.encode(bytes32[], address))\<close>, the oracle's signature check, and the
  address of this contract instance.
\<close>

record fhe =
  keccak256_encode :: "bytes32 list \<Rightarrow> address \<Rightarrow> bytes32"
  checkSignatures :: "uint256 \<Rightarrow> bytes \<Rightarrow> bytes \<Rightarrow> bool"
  self_address :: address

section \<open>Library and language primitives\<close>

definition checked_add :: "uint256 \<Rightarrow> uint256 \<Rightarrow> uint256 option" where
  "checked_add a b = (if unat a + unat b < 2 ^ 256 then Some (a + b) else None)"

text \<open>
  \<open>FHE.isInitialized\<close> of the imported library: a handle is initialized when it is
  not the zero (null) handle.
\<close>

definition isInitialized :: "euint32 \<Rightarrow> bool" where
  "isInitialized v = (v \<noteq> 0)"

text \<open>\<open>FHE.toBytes32\<close> unwraps the handle.\<close>

definition toBytes32 :: "euint32 \<Rightarrow> bytes32" where
  "toBytes32 v = v"

text \<open>
  Modelled from the spec: \<open>slice\<close> on \<open>bytes\<close> is not defined in the repository. The
  spec fixes the layout (bytes [0,32) assets, [32,64) liabilities, [64,96) solvencyProof);
  a slice that reaches past the end of the payload reverts.
\<close>

definition slice :: "bytes \<Rightarrow> nat \<Rightarrow> nat \<Rightarrow> bytes option" where
  "slice b start len = (if start + len \<le> length b then Some (take len (drop start b)) else None)"

definition be_value :: "bytes \<Rightarrow> nat" where
  "be_value b = foldl (\<lambda>acc x. acc * 256 + unat x) 0 b"

text \<open>
  \<open>abi.decode(data, (uint32))\<close>: reads the first 32-byte word, big-endian, and reverts
  when the data is shorter or the word does not fit 32 bits.
\<close>

definition abi_decode_uint32 :: "bytes \<Rightarrow> uint32 option" where
  "abi_decode_uint32 b =
     (if length b < 32 then None
      else if be_value (take 32 b) < 2 ^ 32 then Some (of_nat (be_value (take 32 b)))
      else None)"

definition decode_slice :: "bytes \<Rightarrow> nat \<Rightarrow> uint32 option" where
  "decode_slice cleartexts start =
     (case slice cleartexts start 32 of None \<Rightarrow> None | Some w \<Rightarrow> abi_decode_uint32 w)"

definition emit :: "event \<Rightarrow> state \<Rightarrow> state" where
  "emit e s = s\<lparr>events := events s @ [e]\<rparr>"

section \<open>Modifiers\<close>

text \<open>A modifier wraps the body it is applied to; \<open>body\<close> stands for its placeholder.\<close>

type_synonym body = "state \<Rightarrow> error + state"

definition onlyOwner :: "address \<Rightarrow> body \<Rightarrow> body" where
  "onlyOwner sender body s = (if sender \<noteq> owner s then Inl NotOwner else body s)"

definition onlyProvider :: "address \<Rightarrow> body \<Rightarrow> body" where
  "onlyProvider sender body s = (if \<not> isProvider s sender then Inl NotProvider else body s)"

definition whenNotPaused :: "body \<Rightarrow> body" where
  "whenNotPaused body s = (if paused s then Inl Paused else body s)"

definition checkSubmissionCooldown :: "uint256 \<Rightarrow> address \<Rightarrow> body \<Rightarrow> body" where
  "checkSubmissionCooldown now provider body s =
     (case checked_add (lastSubmissionTime s provider) (cooldownSeconds s) of
        None \<Rightarrow> Inl Panic
      | Some t \<Rightarrow> if now < t then Inl CooldownActive else body s)"

definition checkDecryptionCooldown :: "uint256 \<Rightarrow> address \<Rightarrow> body \<Rightarrow> body" where
  "checkDecryptionCooldown now provider body s =
     (case checked_add (lastDecryptionRequestTime s provider) (cooldownSeconds s) of
        None \<Rightarrow> Inl Panic
      | Some t \<Rightarrow> if now < t then Inl CooldownActive else body s)"

section \<open>Constructor and external functions\<close>

definition constructor :: "address \<Rightarrow> state" where
  "constructor sender =
     \<lparr> owner = sender,
       isProvider = (\<lambda>_. False),
       paused = False,
       cooldownSeconds = 60,
       lastSubmissionTime = (\<lambda>_. 0),
       lastDecryptionRequestTime = (\<lambda>_. 0),
       currentBatchId = 0,
       batchOpen = False,
       loanApplications = (\<lambda>_. \<lparr>encryptedAssets = 0, encryptedLiabilities = 0,
                                  encryptedSolvencyProof = 0\<rparr>),
       decryptionContexts = (\<lambda>_. \<lparr>batchId = 0, stateHash = 0, processed = False\<rparr>),
       events = [OwnershipTransferred 0 sender] \<rparr>"

definition transferOwnership :: "address \<Rightarrow> address \<Rightarrow> body" where
  "transferOwnership sender newOwner =
     onlyOwner sender
       (\<lambda>s. Inr (emit (OwnershipTransferred (owner s) newOwner) (s\<lparr>owner := newOwner\<rparr>)))"

definition addProvider :: "address \<Rightarrow> address \<Rightarrow> body" where
  "addProvider sender provider =
     onlyOwner sender
       (\<lambda>s. if \<not> isProvider s provider
            then Inr (emit (ProviderAdded provider)
                        (s\<lparr>isProvider := (isProvider s)(provider := True)\<rparr>))
            else Inr s)"

definition removeProvider :: "address \<Rightarrow> address \<Rightarrow> body" where
  "removeProvider sender provider =
     onlyOwner sender
       (\<lambda>s. if isProvider s provider
            then Inr (emit (ProviderRemoved provider)
                        (s\<lparr>isProvider := (isProvider s)(provider := False)\<rparr>))
            else Inr s)"

definition setPaused :: "address \<Rightarrow> bool \<Rightarrow> body" where
  "setPaused sender p =
     onlyOwner sender (\<lambda>s. Inr (emit (PauseToggled p) (s\<lparr>paused := p\<rparr>)))"

definition setCooldownSeconds :: "address \<Rightarrow> uint256 \<Rightarrow> body" where
  "setCooldownSeconds sender newCooldownSeconds =
     onlyOwner sender
       (\<lambda>s. Inr (emit (CooldownSecondsUpdated (cooldownSeconds s) newCooldownSeconds)
                    (s\<lparr>cooldownSeconds := newCooldownSeconds\<rparr>)))"

definition openBatch :: "address \<Rightarrow> body" where
  "openBatch sender =
     onlyOwner sender (whenNotPaused
       (\<lambda>s. if batchOpen s then Inl BatchAlreadyOpen
            else case checked_add (currentBatchId s) 1 of
                   None \<Rightarrow> Inl Panic
                 | Some n \<Rightarrow> Inr (emit (BatchOpened n)
                                    (s\<lparr>currentBatchId := n, batchOpen := True\<rparr>))))"

definition closeBatch :: "address \<Rightarrow> body" where
  "closeBatch sender =
     onlyOwner sender (whenNotPaused
       (\<lambda>s. if \<not> batchOpen s then Inl BatchNotOpen
            else Inr (emit (BatchClosed (currentBatchId s)) (s\<lparr>batchOpen := False\<rparr>))))"

text \<open>
  \<open>_initIfNeeded\<close>: for an uninitialized handle the source calls \<open>FHE.asEuint32(0)\<close> and
  drops the handle it returns; neither branch writes to the storage of the contract,
  and neither reverts.
\<close>

definition initIfNeeded :: "euint32 \<Rightarrow> state \<Rightarrow> state" where
  "initIfNeeded val s = (if \<not> isInitialized val then s else s)"

definition requireInitialized :: "euint32 \<Rightarrow> error option" where
  "requireInitialized val =
     (if \<not> isInitialized val then Some (Error ''Ciphertext not initialized'') else None)"

definition hashCiphertexts :: "fhe \<Rightarrow> euint32 list \<Rightarrow> bytes32" where
  "hashCiphertexts f cts = keccak256_encode f (map toBytes32 cts) (self_address f)"

definition submitLoanApplication ::
  "address \<Rightarrow> uint256 \<Rightarrow> euint32 \<Rightarrow> euint32 \<Rightarrow> euint32 \<Rightarrow> body" where
  "submitLoanApplication sender now assets liabilities solvencyProof =
     onlyProvider sender (whenNotPaused (checkSubmissionCooldown now sender
       (\<lambda>s. if \<not> batchOpen s then Inl BatchNotOpen
            else let s1 = initIfNeeded assets s;
                     s2 = initIfNeeded liabilities s1;
                     s3 = initIfNeeded solvencyProof s2;
                     s4 = s3\<lparr>loanApplications := (loanApplications s3)
                            (currentBatchId s3 :=
                               \<lparr>encryptedAssets = assets,
                                encryptedLiabilities = liabilities,
                                encryptedSolvencyProof = solvencyProof\<rparr>)\<rparr>;
                     s5 = s4\<lparr>lastSubmissionTime := (lastSubmissionTime s4)(sender := now)\<rparr>
                 in Inr (emit (LoanApplicationSubmitted sender (currentBatchId s5)
                                 assets liabilities solvencyProof) s5))))"

text \<open>
  \<open>requestLoanApproval\<close>: the request identifier is the value that
  \<open>FHE.requestDecryption\<close> returns; it is chosen outside the contract, so the model takes
  it as the argument \<open>requestId\<close>. The library call itself is taken to return normally. The library call itself is taken to return normally. The library call itself is taken to return normally.
\<close>

definition requestLoanApproval ::
  "fhe \<Rightarrow> address \<Rightarrow> uint256 \<Rightarrow> uint256 \<Rightarrow> uint256 \<Rightarrow> body" where
  "requestLoanApproval f sender now b requestId =
     onlyProvider sender (whenNotPaused (checkDecryptionCooldown now sender
       (\<lambda>s. if b = 0 \<or> b > currentBatchId s then Inl InvalidBatch
            else let app = loanApplications s b in
              case requireInitialized (encryptedAssets app) of Some e \<Rightarrow> Inl e | None \<Rightarrow>
              case requireInitialized (encryptedLiabilities app) of Some e \<Rightarrow> Inl e | None \<Rightarrow>
              case requireInitialized (encryptedSolvencyProof app) of Some e \<Rightarrow> Inl e | None \<Rightarrow>
              let ctsToHash = [encryptedAssets app, encryptedLiabilities app,
                               encryptedSolvencyProof app];
                  h = hashCiphertexts f ctsToHash;
                  s1 = s\<lparr>decryptionContexts := (decryptionContexts s)
                          (requestId := \<lparr>batchId = b, stateHash = h, processed = False\<rparr>)\<rparr>;
                  s2 = s1\<lparr>lastDecryptionRequestTime :=
                            (lastDecryptionRequestTime s1)(sender := now)\<rparr>
              in Inr (emit (DecryptionRequested requestId b) s2))))"

definition myCallback :: "fhe \<Rightarrow> uint256 \<Rightarrow> bytes \<Rightarrow> bytes \<Rightarrow> body" where
  "myCallback f requestId cleartexts prf s =
     (if processed (decryptionContexts s requestId) then Inl ReplayAttempt
      else let b = batchId (decryptionContexts s requestId) in
        if b = 0 \<or> b > currentBatchId s then Inl InvalidBatch
        else let app = loanApplications s b;
                 ctsToHash = [encryptedAssets app, encryptedLiabilities app,
                              encryptedSolvencyProof app];
                 currentHash = hashCiphertexts f ctsToHash in
          if currentHash \<noteq> stateHash (decryptionContexts s requestId) then Inl StateMismatch
          else if \<not> checkSignatures f requestId cleartexts prf then Inl DecryptionFailed
          else case decode_slice cleartexts 0 of None \<Rightarrow> Inl Revert | Some assets \<Rightarrow>
               case decode_slice cleartexts 32 of None \<Rightarrow> Inl Revert | Some liabilities \<Rightarrow>
               case decode_slice cleartexts 64 of None \<Rightarrow> Inl Revert | Some solvencyProof \<Rightarrow>
                 Inr (emit (DecryptionCompleted requestId b assets liabilities solvencyProof)
                        (s\<lparr>decryptionContexts := (decryptionContexts s)
                            (requestId := (decryptionContexts s requestId)
                                            \<lparr>processed := True\<rparr>)\<rparr>)))"

section \<open>Transactions\<close>

text \<open>
  A call names the external function and its arguments; for \<open>RequestLoanApproval\<close> the
  second argument is the request identifier the oracle answers with. A transaction adds
  \<open>msg.sender\<close> and \<open>block.timestamp\<close>. A transaction that reverts leaves the storage and
  the log as they were.
\<close>

datatype call =
    TransferOwnership address
  | AddProvider address
  | RemoveProvider address
  | SetPaused bool
  | SetCooldownSeconds uint256
  | OpenBatch
  | CloseBatch
  | SubmitLoanApplication euint32 euint32 euint32
  | RequestLoanApproval uint256 uint256
  | MyCallback uint256 bytes bytes

record tx =
  tx_sender :: address
  tx_time :: uint256
  tx_call :: call

fun dispatch :: "fhe \<Rightarrow> address \<Rightarrow> uint256 \<Rightarrow> call \<Rightarrow> body" where
  "dispatch f sender now (TransferOwnership a) = transferOwnership sender a"
| "dispatch f sender now (AddProvider a) = addProvider sender a"
| "dispatch f sender now (RemoveProvider a) = removeProvider sender a"
| "dispatch f sender now (SetPaused p) = setPaused sender p"
| "dispatch f sender now (SetCooldownSeconds n) = setCooldownSeconds sender n"
| "dispatch f sender now OpenBatch = openBatch sender"
| "dispatch f sender now CloseBatch = closeBatch sender"
| "dispatch f sender now (SubmitLoanApplication a l p) = submitLoanApplication sender now a l p"
| "dispatch f sender now (RequestLoanApproval b r) = requestLoanApproval f sender now b r"
| "dispatch f sender now (MyCallback r c p) = myCallback f r c p"

definition exec :: "fhe \<Rightarrow> tx \<Rightarrow> body" where
  "exec f t = dispatch f (tx_sender t) (tx_time t) (tx_call t)"

definition step :: "fhe \<Rightarrow> tx \<Rightarrow> state \<Rightarrow> state" where
  "step f t s = (case exec f t s of Inl e \<Rightarrow> s | Inr s' \<Rightarrow> s')"

fun run :: "fhe \<Rightarrow> tx list \<Rightarrow> state \<Rightarrow> state" where
  "run f [] s = s"
| "run f (t # ts) s = run f ts (step f t s)"

section \<open>Notions used by the properties\<close>

text \<open>
  The specification names the errors differently from the contract: both role errors are
  \<open>Unauthorized\<close>, \<open>Paused\<close> is \<open>SystemPaused\<close>, \<open>CooldownActive\<close> is \<open>RateLimited\<close>, and
  the reason-string revert of \<open>_requireInitialized\<close> is \<open>RecordIncomplete\<close>. The contract
  has no error for the specification's \<open>UnknownRequest\<close>.
\<close>

fun spec_error_name :: "error \<Rightarrow> string" where
  "spec_error_name NotOwner = ''Unauthorized''"
| "spec_error_name NotProvider = ''Unauthorized''"
| "spec_error_name Paused = ''SystemPaused''"
| "spec_error_name CooldownActive = ''RateLimited''"
| "spec_error_name BatchNotOpen = ''BatchNotOpen''"
| "spec_error_name BatchAlreadyOpen = ''BatchAlreadyOpen''"
| "spec_error_name InvalidBatch = ''InvalidBatch''"
| "spec_error_name ReplayAttempt = ''ReplayAttempt''"
| "spec_error_name StateMismatch = ''StateMismatch''"
| "spec_error_name DecryptionFailed = ''DecryptionFailed''"
| "spec_error_name (Error msg) =
     (if msg = ''Ciphertext not initialized'' then ''RecordIncomplete'' else msg)"
| "spec_error_name Panic = ''Panic''"
| "spec_error_name Revert = ''Revert''"

text \<open>The three handles of a record, as both hashing sites list them.\<close>

definition record_handles :: "LoanApplication \<Rightarrow> euint32 list" where
  "record_handles app = [encryptedAssets app, encryptedLiabilities app, encryptedSolvencyProof app]"

definition record_initialized :: "LoanApplication \<Rightarrow> bool" where
  "record_initialized app =
     (isInitialized (encryptedAssets app) \<and> isInitialized (encryptedLiabilities app)
      \<and> isInitialized (encryptedSolvencyProof app))"

text \<open>The value a context slot reads as before anything is stored under its key.\<close>

definition empty_context :: DecryptionContext where
  "empty_context = \<lparr>batchId = 0, stateHash = 0, processed = False\<rparr>"

text \<open>
  Read off the event log: the request identifiers for which a request succeeded (each
  successful \<open>requestLoanApproval\<close> emits exactly one \<open>DecryptionRequested\<close>, and nothing
  else emits it), and the number of completion events of one request identifier.
\<close>

definition requested_ids :: "event list \<Rightarrow> uint256 list" where
  "requested_ids es = concat (map (\<lambda>e. case e of DecryptionRequested r b \<Rightarrow> [r] | _ \<Rightarrow> []) es)"

definition completions :: "uint256 \<Rightarrow> event list \<Rightarrow> nat" where
  "completions r es =
     length (filter (\<lambda>e. case e of DecryptionCompleted r' b a l p \<Rightarrow> r' = r | _ \<Rightarrow> False) es)"

text \<open>
  The oracle issues identifiers: a request that reaches the oracle (one that does not
  revert) is never answered with an identifier that an earlier successful request got.
\<close>

definition fresh_tx :: "fhe \<Rightarrow> tx \<Rightarrow> state \<Rightarrow> bool" where
  "fresh_tx f t s =
     (case tx_call t of
        RequestLoanApproval b r \<Rightarrow>
          isl (exec f t s) \<or> r \<notin> set (requested_ids (events s))
      | _ \<Rightarrow> True)"

fun fresh_oracle :: "fhe \<Rightarrow> tx list \<Rightarrow> state \<Rightarrow> bool" where
  "fresh_oracle f [] s = True"
| "fresh_oracle f (t # ts) s = (fresh_tx f t s \<and> fresh_oracle f ts (step f t s))"

text \<open>Invariants of the context table, used in the proofs only.\<close>

definition unrequested_empty :: "state \<Rightarrow> bool" where
  "unrequested_empty s =
     (\<forall>r. r \<notin> set (requested_ids (events s)) \<longrightarrow> decryptionContexts s r = empty_context)"

definition completed_once :: "state \<Rightarrow> bool" where
  "completed_once s =
     (\<forall>r. completions r (events s) = (if processed (decryptionContexts s r) then 1 else 0))"

text \<open>
  What a successful call must have done, operation by operation: the fields it writes hold
  their new values and the log has grown by exactly the event of the operation.
  \<open>silent_noop\<close> tells the two calls that succeed without any effect: adding an address
  that is a provider already and removing one that is not.
\<close>

definition silent_noop :: "call \<Rightarrow> state \<Rightarrow> bool" where
  "silent_noop c s =
     (case c of AddProvider a \<Rightarrow> isProvider s a
      | RemoveProvider a \<Rightarrow> \<not> isProvider s a
      | _ \<Rightarrow> False)"

fun applied :: "fhe \<Rightarrow> address \<Rightarrow> uint256 \<Rightarrow> call \<Rightarrow> state \<Rightarrow> state \<Rightarrow> bool" where
  "applied f sender now (TransferOwnership a) s s' =
     (owner s' = a \<and> events s' = events s @ [OwnershipTransferred (owner s) a])"
| "applied f sender now (AddProvider a) s s' =
     (isProvider s' a \<and> events s' = events s @ [ProviderAdded a])"
| "applied f sender now (RemoveProvider a) s s' =
     (\<not> isProvider s' a \<and> events s' = events s @ [ProviderRemoved a])"
| "applied f sender now (SetPaused p) s s' =
     (paused s' = p \<and> events s' = events s @ [PauseToggled p])"
| "applied f sender now (SetCooldownSeconds n) s s' =
     (cooldownSeconds s' = n
      \<and> events s' = events s @ [CooldownSecondsUpdated (cooldownSeconds s) n])"
| "applied f sender now OpenBatch s s' =
     (batchOpen s' \<and> currentBatchId s' = currentBatchId s + 1
      \<and> events s' = events s @ [BatchOpened (currentBatchId s + 1)])"
| "applied f sender now CloseBatch s s' =
     (\<not> batchOpen s' \<and> events s' = events s @ [BatchClosed (currentBatchId s)])"
| "applied f sender now (SubmitLoanApplication a l p) s s' =
     (loanApplications s' (currentBatchId s) =
        \<lparr>encryptedAssets = a, encryptedLiabilities = l, encryptedSolvencyProof = p\<rparr>
      \<and> lastSubmissionTime s' sender = now
      \<and> events s' = events s @ [LoanApplicationSubmitted sender (currentBatchId s) a l p])"
| "applied f sender now (RequestLoanApproval b r) s s' =
     (decryptionContexts s' r =
        \<lparr>batchId = b, stateHash = hashCiphertexts f (record_handles (loanApplications s b)),
         processed = False\<rparr>
      \<and> lastDecryptionRequestTime s' sender = now
      \<and> events s' = events s @ [DecryptionRequested r b])"
| "applied f sender now (MyCallback r c p) s s' =
     (processed (decryptionContexts s' r)
      \<and> (case (decode_slice c 0, decode_slice c 32, decode_slice c 64) of
           (Some a, Some l, Some sp) \<Rightarrow>
             events s' = events s @
               [DecryptionCompleted r (batchId (decryptionContexts s r)) a l sp]
         | _ \<Rightarrow> False))"

text \<open>The calls behind \<open>onlyOwner\<close>.\<close>

fun owner_only :: "call \<Rightarrow> bool" where
  "owner_only (TransferOwnership a) = True"
| "owner_only (AddProvider a) = True"
| "owner_only (RemoveProvider a) = True"
| "owner_only (SetPaused p) = True"
| "owner_only (SetCooldownSeconds n) = True"
| "owner_only OpenBatch = True"
| "owner_only CloseBatch = True"
| "owner_only _ = False"

text \<open>The batch identifiers produced by the successful \<open>openBatch\<close> calls of a run, in order.\<close>

fun batch_ids :: "fhe \<Rightarrow> tx list \<Rightarrow> state \<Rightarrow> uint256 list" where
  "batch_ids f [] s = []"
| "batch_ids f (t # ts) s =
     (case (tx_call t, exec f t s) of
        (OpenBatch, Inr s') \<Rightarrow> [currentBatchId s']
      | _ \<Rightarrow> [])
     @ batch_ids f ts (step f t s)"

section \<open>A concrete environment and concrete runs\<close>

text \<open>
  A computable stand-in for the hash and for the signature check, a well-formed payload
  of three 32-byte words, and a few states reached from the constructor: a batch is open
  (\<open>open_ex\<close>), a record is submitted and its decryption requested (\<open>pending_ex\<close>), the
  callback has completed (\<open>completed_ex\<close>), the owner has paused (\<open>paused_ex\<close>).
\<close>

definition fhe_ex :: fhe where
  "fhe_ex = \<lparr> keccak256_encode = (\<lambda>hs a. foldr (\<lambda>h acc. h + 3 * acc) hs (ucast a)),
              checkSignatures = (\<lambda>r c p. p = [1]),
              self_address = 77 \<rparr>"

definition payload_ex :: bytes where
  "payload_ex = replicate 31 0 @ [3] @ replicate 31 0 @ [4] @ replicate 31 0 @ [5]"

definition txs_ex :: "tx list" where
  "txs_ex = [\<lparr>tx_sender = 1, tx_time = 100, tx_call = AddProvider 2\<rparr>,
             \<lparr>tx_sender = 1, tx_time = 100, tx_call = OpenBatch\<rparr>,
             \<lparr>tx_sender = 2, tx_time = 100, tx_call = SubmitLoanApplication 5 6 7\<rparr>]"

definition tx_request_ex :: tx where
  "tx_request_ex = \<lparr>tx_sender = 2, tx_time = 200, tx_call = RequestLoanApproval 1 9\<rparr>"

definition tx_resubmit_ex :: tx where
  "tx_resubmit_ex = \<lparr>tx_sender = 2, tx_time = 300, tx_call = SubmitLoanApplication 5 6 8\<rparr>"

definition open_ex :: state where
  "open_ex = run fhe_ex [\<lparr>tx_sender = 1, tx_time = 100, tx_call = AddProvider 2\<rparr>,
                         \<lparr>tx_sender = 1, tx_time = 100, tx_call = OpenBatch\<rparr>] (constructor 1)"

definition paused_ex :: state where
  "paused_ex = step fhe_ex \<lparr>tx_sender = 1, tx_time = 100, tx_call = SetPaused True\<rparr> open_ex"

definition pending_ex :: state where
  "pending_ex = run fhe_ex (txs_ex @ [tx_request_ex]) (constructor 1)"

definition completed_ex :: state where
  "completed_ex =
     pending_ex\<lparr>decryptionContexts := (decryptionContexts pending_ex)
                   (9 := (decryptionContexts pending_ex 9)\<lparr>processed := True\<rparr>),
                events := events pending_ex @ [DecryptionCompleted 9 1 3 4 5]\<rparr>"

definition later_ex :: "tx list" where
  "later_ex = [\<lparr>tx_sender = 2, tx_time = 300, tx_call = SubmitLoanApplication 5 6 8\<rparr>,
               \<lparr>tx_sender = 2, tx_time = 300, tx_call = RequestLoanApproval 1 10\<rparr>,
               \<lparr>tx_sender = 3, tx_time = 350, tx_call = RequestLoanApproval 1 9\<rparr>,
               \<lparr>tx_sender = 7, tx_time = 400, tx_call = MyCallback 9 payload_ex [1]\<rparr>]"

section \<open>Unfolding and evaluation\<close>

lemmas modifier_defs = onlyOwner_def onlyProvider_def whenNotPaused_def
  checkSubmissionCooldown_def checkDecryptionCooldown_def

lemmas op_defs = transferOwnership_def addProvider_def removeProvider_def setPaused_def
  setCooldownSeconds_def openBatch_def closeBatch_def submitLoanApplication_def
  requestLoanApproval_def myCallback_def

lemmas aux_defs = emit_def initIfNeeded_def requireInitialized_def hashCiphertexts_def
  isInitialized_def toBytes32_def checked_add_def Let_def

lemmas run_defs = op_defs modifier_defs aux_defs record_handles_def record_initialized_def
  requested_ids_def completions_def fresh_tx_def

lemmas example_defs = fhe_ex_def txs_ex_def tx_request_ex_def tx_resubmit_ex_def open_ex_def
  paused_ex_def pending_ex_def completed_ex_def later_ex_def exec_def step_def constructor_def

lemma be_value_zeros: "foldl (\<lambda>acc x. acc * 256 + unat x) 0 (replicate n (0::8 word)) = 0"
  by (induction n) simp_all

lemma decode_payload_ex:
  "decode_slice payload_ex 0 = Some 3" "decode_slice payload_ex 32 = Some 4"
  "decode_slice payload_ex 64 = Some 5"
  by (simp_all add: decode_slice_def slice_def abi_decode_uint32_def be_value_def payload_ex_def
      be_value_zeros)

section \<open>Checked arithmetic and the batch counter\<close>

lemma checked_add_mono: "checked_add a b = Some n \<Longrightarrow> a \<le> n"
  by (auto simp: checked_add_def no_olen_add_nat split: if_splits)

lemma checked_add_one_less: "checked_add a 1 = Some n \<Longrightarrow> a < n"
  by (auto simp: checked_add_def word_less_nat_alt unat_add_lem [THEN iffD1] split: if_splits)

lemma exec_currentBatchId_mono:
  assumes "exec f t s = Inr s'"
  shows "currentBatchId s \<le> currentBatchId s'"
proof (cases "tx_call t")
  case OpenBatch
  with assms show ?thesis
    by (auto simp: exec_def openBatch_def modifier_defs emit_def
        split: if_splits option.splits dest: checked_add_mono)
qed (use assms in \<open>auto simp: exec_def op_defs modifier_defs aux_defs
        split: if_splits option.splits\<close>)

lemma step_currentBatchId_mono: "currentBatchId s \<le> currentBatchId (step f t s)"
  by (auto simp: step_def split: sum.splits dest: exec_currentBatchId_mono)

lemma run_currentBatchId_mono: "currentBatchId s \<le> currentBatchId (run f ts s)"
proof (induction ts arbitrary: s)
  case Nil
  show ?case by simp
next
  case (Cons t ts)
  have "currentBatchId s \<le> currentBatchId (step f t s)"
    by (rule step_currentBatchId_mono)
  also have "\<dots> \<le> currentBatchId (run f ts (step f t s))"
    by (rule Cons.IH)
  finally show ?case by simp
qed

lemma exec_OpenBatch_greater:
  "exec f t s = Inr s' \<Longrightarrow> tx_call t = OpenBatch \<Longrightarrow> currentBatchId s < currentBatchId s'"
  by (auto simp: exec_def openBatch_def modifier_defs emit_def
      split: if_splits option.splits dest: checked_add_one_less)

lemma step_OpenBatch_greater:
  "tx_call t = OpenBatch \<Longrightarrow> \<not> isl (exec f t s)
   \<Longrightarrow> currentBatchId s < currentBatchId (step f t s)"
  by (cases "exec f t s") (auto simp: step_def dest: exec_OpenBatch_greater)

lemma batch_ids_Cons:
  "batch_ids f (t # ts) s =
     (if tx_call t = OpenBatch \<and> \<not> isl (exec f t s)
      then currentBatchId (step f t s) # batch_ids f ts (step f t s)
      else batch_ids f ts (step f t s))"
  by (auto simp: step_def split: call.splits sum.splits)

lemma batch_ids_greater:
  "i \<in> set (batch_ids f ts s) \<Longrightarrow> currentBatchId s < i"
proof (induction ts arbitrary: s)
  case Nil
  then show ?case by simp
next
  case (Cons t ts)
  show ?case
  proof (cases "i \<in> set (batch_ids f ts (step f t s))")
    case True
    then have "currentBatchId (step f t s) < i" by (rule Cons.IH)
    with step_currentBatchId_mono [of s f t] show ?thesis by simp
  next
    case False
    with Cons.prems have "tx_call t = OpenBatch" "\<not> isl (exec f t s)"
      "i = currentBatchId (step f t s)"
      by (auto simp: batch_ids_Cons simp del: batch_ids.simps split: if_splits)
    then show ?thesis by (simp add: step_OpenBatch_greater)
  qed
qed

lemma batch_ids_increasing: "sorted_wrt (<) (batch_ids f ts s)"
proof (induction ts arbitrary: s)
  case Nil
  show ?case by simp
next
  case (Cons t ts)
  have "\<forall>i \<in> set (batch_ids f ts (step f t s)). currentBatchId (step f t s) < i"
    by (simp add: batch_ids_greater)
  with Cons.IH [of "step f t s"] show ?case
    by (simp add: batch_ids_Cons del: batch_ids.simps)
qed

section \<open>The context table along a run\<close>

lemma requested_ids_snoc:
  "requested_ids (es @ [e]) =
     requested_ids es @ (case e of DecryptionRequested r b \<Rightarrow> [r] | _ \<Rightarrow> [])"
  by (simp add: requested_ids_def)

lemma completions_snoc:
  "completions r (es @ [e]) =
     completions r es + (case e of DecryptionCompleted r' b a l p \<Rightarrow> if r' = r then 1 else 0 | _ \<Rightarrow> 0)"
  by (simp add: completions_def split: event.splits)

lemma exec_contexts_cases:
  assumes "exec f t s = Inr s'"
  obtains
    (request) b r where "tx_call t = RequestLoanApproval b r"
      and "decryptionContexts s' = (decryptionContexts s)
             (r := \<lparr>batchId = b,
                    stateHash = hashCiphertexts f (record_handles (loanApplications s b)),
                    processed = False\<rparr>)"
      and "events s' = events s @ [DecryptionRequested r b]"
  | (callback) r c p a l sp where "tx_call t = MyCallback r c p"
      and "\<not> processed (decryptionContexts s r)"
      and "batchId (decryptionContexts s r) \<noteq> 0"
      and "decryptionContexts s' = (decryptionContexts s)
             (r := (decryptionContexts s r)\<lparr>processed := True\<rparr>)"
      and "events s' =
             events s @ [DecryptionCompleted r (batchId (decryptionContexts s r)) a l sp]"
  | (other) "decryptionContexts s' = decryptionContexts s"
      and "requested_ids (events s') = requested_ids (events s)"
      and "\<And>r. completions r (events s') = completions r (events s)"
proof (cases "tx_call t")
  case (MyCallback r c p)
  with assms callback show ?thesis
    by (auto simp: exec_def myCallback_def aux_defs split: if_splits option.splits)
next
  case (RequestLoanApproval b r)
  with assms request show ?thesis
    by (auto simp: exec_def requestLoanApproval_def modifier_defs aux_defs record_handles_def
        split: if_splits option.splits)
qed (use assms other in \<open>auto simp: exec_def op_defs modifier_defs aux_defs
        requested_ids_snoc completions_snoc split: if_splits option.splits\<close>)

lemma exec_unrequested_empty:
  assumes inv: "unrequested_empty s" and ex: "exec f t s = Inr s'"
  shows "unrequested_empty s'"
  using ex
proof (cases rule: exec_contexts_cases)
  case (request b r)
  with inv show ?thesis
    by (simp add: unrequested_empty_def requested_ids_snoc)
next
  case (callback r c p a l sp)
  from inv callback(3) have "r \<in> set (requested_ids (events s))"
    by (auto simp: unrequested_empty_def empty_context_def)
  with inv callback show ?thesis
    by (auto simp: unrequested_empty_def requested_ids_snoc)
next
  case other
  with inv show ?thesis
    by (simp add: unrequested_empty_def)
qed

lemma step_unrequested_empty: "unrequested_empty s \<Longrightarrow> unrequested_empty (step f t s)"
  by (auto simp: step_def split: sum.splits dest: exec_unrequested_empty)

lemma run_unrequested_empty: "unrequested_empty s \<Longrightarrow> unrequested_empty (run f ts s)"
  by (induction ts arbitrary: s) (simp_all add: step_unrequested_empty)

lemma constructor_unrequested_empty: "unrequested_empty (constructor d)"
  by (simp add: unrequested_empty_def constructor_def empty_context_def requested_ids_def)

lemma exec_completed_once:
  assumes inv: "completed_once s" and ue: "unrequested_empty s" and fr: "fresh_tx f t s"
    and ex: "exec f t s = Inr s'"
  shows "completed_once s'"
  using ex
proof (cases rule: exec_contexts_cases)
  case (request b r)
  from fr request(1) ex have "r \<notin> set (requested_ids (events s))"
    by (simp add: fresh_tx_def)
  with ue have "\<not> processed (decryptionContexts s r)"
    by (simp add: unrequested_empty_def empty_context_def)
  with inv request show ?thesis
    by (simp add: completed_once_def completions_snoc)
next
  case (callback r c p a l sp)
  with inv show ?thesis
    by (simp add: completed_once_def completions_snoc)
next
  case other
  with inv show ?thesis
    by (simp add: completed_once_def)
qed

lemma step_completed_once:
  "completed_once s \<Longrightarrow> unrequested_empty s \<Longrightarrow> fresh_tx f t s
   \<Longrightarrow> completed_once (step f t s)"
  by (auto simp: step_def split: sum.splits dest: exec_completed_once)

lemma run_completed_once:
  "completed_once s \<Longrightarrow> unrequested_empty s \<Longrightarrow> fresh_oracle f ts s
   \<Longrightarrow> completed_once (run f ts s)"
  by (induction ts arbitrary: s) (simp_all add: step_completed_once step_unrequested_empty)

lemma constructor_completed_once: "completed_once (constructor d)"
  by (simp add: completed_once_def constructor_def completions_def)

text \<open>A processed context stays processed while the oracle issues fresh identifiers.\<close>

lemma step_processed:
  assumes "processed (decryptionContexts s r)" and "unrequested_empty s" and "fresh_tx f t s"
  shows "processed (decryptionContexts (step f t s) r)"
proof (cases "exec f t s")
  case (Inl e)
  with assms show ?thesis by (simp add: step_def)
next
  case (Inr s')
  from assms(1,2) have req: "r \<in> set (requested_ids (events s))"
    by (auto simp: unrequested_empty_def empty_context_def)
  from Inr have "processed (decryptionContexts s' r)"
  proof (cases rule: exec_contexts_cases)
    case (request b r')
    with assms(3) req Inr have "r' \<noteq> r" by (auto simp: fresh_tx_def)
    with request assms(1) show ?thesis by simp
  next
    case (callback r' c p a l sp)
    with assms(1) show ?thesis by simp
  next
    case other
    with assms(1) show ?thesis by simp
  qed
  with Inr show ?thesis by (simp add: step_def)
qed

lemma run_processed:
  "processed (decryptionContexts s r) \<Longrightarrow> unrequested_empty s \<Longrightarrow> fresh_oracle f ts s
   \<Longrightarrow> processed (decryptionContexts (run f ts s) r)"
  by (induction ts arbitrary: s) (simp_all add: step_processed step_unrequested_empty)

lemma myCallback_success:
  assumes "\<not> processed (decryptionContexts s rid)"
    and "batchId (decryptionContexts s rid) \<noteq> 0"
    and "batchId (decryptionContexts s rid) \<le> currentBatchId s"
    and "hashCiphertexts f (record_handles (loanApplications s (batchId (decryptionContexts s rid))))
           = stateHash (decryptionContexts s rid)"
    and "checkSignatures f rid c p"
    and "decode_slice c 0 = Some a" and "decode_slice c 32 = Some l"
    and "decode_slice c 64 = Some sp"
  shows "myCallback f rid c p s =
     Inr (s\<lparr>decryptionContexts := (decryptionContexts s)
               (rid := (decryptionContexts s rid)\<lparr>processed := True\<rparr>),
            events := events s @
               [DecryptionCompleted rid (batchId (decryptionContexts s rid)) a l sp]\<rparr>)"
  using assms
  by (simp add: myCallback_def Let_def emit_def record_handles_def not_less [symmetric])

lemma requestLoanApproval_InrD:
  assumes "requestLoanApproval f sender now b r s = Inr s'"
  shows "b \<noteq> 0" and "b \<le> currentBatchId s"
    and "decryptionContexts s' r =
           \<lparr>batchId = b, stateHash = hashCiphertexts f (record_handles (loanApplications s b)),
            processed = False\<rparr>"
    and "currentBatchId s' = currentBatchId s"
  using assms
  by (auto simp: requestLoanApproval_def modifier_defs aux_defs record_handles_def
      split: if_splits option.splits)

section \<open>Ownership along a run\<close>

lemma exec_owner_zero:
  assumes "exec f t s = Inr s'" and "owner s = 0" and "tx_sender t \<noteq> 0"
  shows "owner s' = 0"
  using assms
  by (cases "tx_call t")
     (auto simp: exec_def op_defs modifier_defs aux_defs split: if_splits option.splits)

lemma step_owner_zero: "owner s = 0 \<Longrightarrow> tx_sender t \<noteq> 0 \<Longrightarrow> owner (step f t s) = 0"
  by (auto simp: step_def split: sum.splits dest: exec_owner_zero)

lemma run_owner_zero:
  "owner s = 0 \<Longrightarrow> list_all (\<lambda>t. tx_sender t \<noteq> 0) ts \<Longrightarrow> owner (run f ts s) = 0"
  by (induction ts arbitrary: s) (simp_all add: step_owner_zero)

lemma owner_only_NotOwner:
  "owner_only c \<Longrightarrow> sender \<noteq> owner s \<Longrightarrow> dispatch f sender now c s = Inl NotOwner"
  by (cases c) (simp_all add: op_defs onlyOwner_def)

section \<open>Properties\<close>

subsection \<open>Exactly-once delivery\<close>

text \<open>
  C1. Let \<open>s\<close> be reached from the constructor while the oracle issues fresh identifiers,
  and let \<open>rid\<close> have a recorded context (a batch id other than 0) that is not processed.
  No completion event of \<open>rid\<close> is in the log of \<open>s\<close>. A callback for \<open>rid\<close> that passes the
  replay check, the batch range check, the state hash check and the proof verification,
  with a well-formed payload (three words that decode), succeeds: the result \<open>s'\<close> is \<open>s\<close>
  with the processed flag of the context set and exactly one \<open>DecryptionCompleted\<close> event
  appended. After any further transactions, every callback for \<open>rid\<close>, whatever its
  payload and proof, fails with \<open>ReplayAttempt\<close>, and the log holds exactly one completion
  event of \<open>rid\<close>, and at most one of any request identifier.
\<close>

theorem C1_exactly_once:
  assumes reach: "s = run f txs0 (constructor d)"
    and fresh0: "fresh_oracle f txs0 (constructor d)"
    and pending: "\<not> processed (decryptionContexts s rid)"
    and recorded: "batchId (decryptionContexts s rid) \<noteq> 0"
    and range: "batchId (decryptionContexts s rid) \<le> currentBatchId s"
    and hash: "hashCiphertexts f
                 (record_handles (loanApplications s (batchId (decryptionContexts s rid))))
               = stateHash (decryptionContexts s rid)"
    and sig: "checkSignatures f rid c p"
    and wf: "decode_slice c 0 = Some a" "decode_slice c 32 = Some l"
            "decode_slice c 64 = Some sp"
    and post: "s' = s\<lparr>decryptionContexts := (decryptionContexts s)
                        (rid := (decryptionContexts s rid)\<lparr>processed := True\<rparr>),
                      events := events s @
                        [DecryptionCompleted rid (batchId (decryptionContexts s rid)) a l sp]\<rparr>"
    and fresh: "fresh_oracle f txs s'"
  shows "myCallback f rid c p s = Inr s'
         \<and> completions rid (events s) = 0
         \<and> completions rid (events s') = 1
         \<and> myCallback f rid c' p' (run f txs s') = Inl ReplayAttempt
         \<and> completions rid (events (run f txs s')) = 1
         \<and> completions r (events (run f txs s')) \<le> 1"
proof -
  have call: "myCallback f rid c p s = Inr s'"
    unfolding post by (rule myCallback_success [OF pending recorded range hash sig wf])
  have ue: "unrequested_empty s"
    unfolding reach by (rule run_unrequested_empty [OF constructor_unrequested_empty])
  have co: "completed_once s"
    unfolding reach
    by (rule run_completed_once
        [OF constructor_completed_once constructor_unrequested_empty fresh0])
  from co pending have before: "completions rid (events s) = 0"
    by (simp add: completed_once_def)
  have after: "completions rid (events s') = 1"
    using before by (simp add: post completions_snoc)
  have ex: "exec f \<lparr>tx_sender = 0, tx_time = 0, tx_call = MyCallback rid c p\<rparr> s = Inr s'"
    using call by (simp add: exec_def)
  have ue': "unrequested_empty s'"
    by (rule exec_unrequested_empty [OF ue ex])
  have fresh_cb: "fresh_tx f \<lparr>tx_sender = 0, tx_time = 0, tx_call = MyCallback rid c p\<rparr> s"
    by (simp add: fresh_tx_def)
  have co': "completed_once s'"
    by (rule exec_completed_once [OF co ue fresh_cb ex])
  have "processed (decryptionContexts s' rid)"
    by (simp add: post)
  then have later: "processed (decryptionContexts (run f txs s') rid)"
    by (rule run_processed [OF _ ue' fresh])
  then have replay: "myCallback f rid c' p' (run f txs s') = Inl ReplayAttempt"
    by (simp add: myCallback_def)
  have all: "completed_once (run f txs s')"
    by (rule run_completed_once [OF co' ue' fresh])
  with later have one: "completions rid (events (run f txs s')) = 1"
    by (simp add: completed_once_def)
  from all have "completions r (events (run f txs s')) \<le> 1"
    by (simp add: completed_once_def)
  with call before after replay one show ?thesis by simp
qed

text \<open>
  C1 at the run \<open>pending_ex\<close>: the callback for request 9 completes, and after a
  resubmission, a second request, a reverting request and a replayed callback, request 9
  is still rejected.
\<close>

theorem C1_exactly_once_witness:
  "myCallback fhe_ex 9 payload_ex [1] pending_ex = Inr completed_ex
   \<and> myCallback fhe_ex 9 [] [] (run fhe_ex later_ex completed_ex) = Inl ReplayAttempt
   \<and> completions 9 (events (run fhe_ex later_ex completed_ex)) = 1"
proof -
  have h1: "pending_ex = run fhe_ex (txs_ex @ [tx_request_ex]) (constructor 1)"
    by (simp add: pending_ex_def)
  have h2: "fresh_oracle fhe_ex (txs_ex @ [tx_request_ex]) (constructor 1)"
    by (simp add: example_defs run_defs)
  have h3: "\<not> processed (decryptionContexts pending_ex 9)"
    and h4: "batchId (decryptionContexts pending_ex 9) \<noteq> 0"
    and h5: "batchId (decryptionContexts pending_ex 9) \<le> currentBatchId pending_ex"
    and h6: "hashCiphertexts fhe_ex (record_handles
               (loanApplications pending_ex (batchId (decryptionContexts pending_ex 9))))
             = stateHash (decryptionContexts pending_ex 9)"
    by (simp_all add: example_defs run_defs)
  have h7: "checkSignatures fhe_ex 9 payload_ex [1]"
    by (simp add: fhe_ex_def)
  have h8: "completed_ex = pending_ex\<lparr>decryptionContexts := (decryptionContexts pending_ex)
                   (9 := (decryptionContexts pending_ex 9)\<lparr>processed := True\<rparr>),
                events := events pending_ex @
                  [DecryptionCompleted 9 (batchId (decryptionContexts pending_ex 9)) 3 4 5]\<rparr>"
    by (simp add: example_defs run_defs)
  have h9: "fresh_oracle fhe_ex later_ex completed_ex"
    by (simp add: example_defs run_defs)
  from C1_exactly_once [where c' = "[]" and p' = "[]", OF h1 h2 h3 h4 h5 h6 h7
      decode_payload_ex h8 h9]
  show ?thesis by simp
qed

subsection \<open>Commitment binding\<close>

text \<open>
  C2. Let a decryption request for batch \<open>b\<close> succeed and store its context under \<open>rid\<close>;
  the stored hash is the hash over the handles of the record of \<open>b\<close> at that moment. Let
  any transactions follow and the context under \<open>rid\<close> still be that pending context. If
  the hash recomputed over the current handles of the record differs from the stored
  one, the callback fails with \<open>StateMismatch\<close>. If the three handles are unchanged, the
  callback succeeds for a proof that verifies over a well-formed payload: it sets the
  processed flag and appends the completion event.
\<close>

theorem C2_commitment_binding:
  assumes req: "requestLoanApproval f sender now b rid s0 = Inr s1"
    and later: "s2 = run f txs s1"
    and pending: "decryptionContexts s2 rid = decryptionContexts s1 rid"
  shows "stateHash (decryptionContexts s1 rid)
           = hashCiphertexts f (record_handles (loanApplications s0 b))
         \<and> (hashCiphertexts f (record_handles (loanApplications s2 b))
              \<noteq> stateHash (decryptionContexts s1 rid)
            \<longrightarrow> myCallback f rid c p s2 = Inl StateMismatch)
         \<and> (record_handles (loanApplications s2 b) = record_handles (loanApplications s0 b)
            \<and> checkSignatures f rid c p
            \<and> decode_slice c 0 = Some a \<and> decode_slice c 32 = Some l
            \<and> decode_slice c 64 = Some sp
            \<longrightarrow> myCallback f rid c p s2 =
                  Inr (s2\<lparr>decryptionContexts := (decryptionContexts s2)
                             (rid := (decryptionContexts s2 rid)\<lparr>processed := True\<rparr>),
                          events := events s2 @ [DecryptionCompleted rid b a l sp]\<rparr>))"
proof -
  note r = requestLoanApproval_InrD [OF req]
  have ctx: "decryptionContexts s2 rid =
      \<lparr>batchId = b, stateHash = hashCiphertexts f (record_handles (loanApplications s0 b)),
       processed = False\<rparr>"
    using pending r(3) by simp
  have "currentBatchId s1 \<le> currentBatchId s2"
    unfolding later by (rule run_currentBatchId_mono)
  with r(2,4) have range: "b \<le> currentBatchId s2" by simp
  have stored: "stateHash (decryptionContexts s1 rid)
           = hashCiphertexts f (record_handles (loanApplications s0 b))"
    using r(3) by simp
  have mismatch: "myCallback f rid c p s2 = Inl StateMismatch"
    if "hashCiphertexts f (record_handles (loanApplications s2 b))
          \<noteq> stateHash (decryptionContexts s1 rid)"
    using that ctx r(1) range stored
    by (simp add: myCallback_def Let_def record_handles_def not_less [symmetric])
  have success: "myCallback f rid c p s2 =
                  Inr (s2\<lparr>decryptionContexts := (decryptionContexts s2)
                             (rid := (decryptionContexts s2 rid)\<lparr>processed := True\<rparr>),
                          events := events s2 @ [DecryptionCompleted rid b a l sp]\<rparr>)"
    if "record_handles (loanApplications s2 b) = record_handles (loanApplications s0 b)"
      and "checkSignatures f rid c p"
      and "decode_slice c 0 = Some a" "decode_slice c 32 = Some l" "decode_slice c 64 = Some sp"
    using myCallback_success [of s2 rid f c p a l sp] that ctx r(1) range
    by simp
  from stored mismatch success show ?thesis by blast
qed

text \<open>
  C2 at \<open>pending_ex\<close>: after a resubmission into batch 1 the callback of request 9 fails
  with \<open>StateMismatch\<close>; with the record untouched it succeeds.
\<close>

theorem C2_commitment_binding_witness:
  "myCallback fhe_ex 9 payload_ex [1] (run fhe_ex [tx_resubmit_ex] pending_ex) = Inl StateMismatch
   \<and> \<not> isl (myCallback fhe_ex 9 payload_ex [1] (run fhe_ex [] pending_ex))"
proof -
  have req: "requestLoanApproval fhe_ex 2 200 1 9 (run fhe_ex txs_ex (constructor 1))
               = Inr pending_ex"
    by (simp add: example_defs run_defs)
  have p1: "decryptionContexts (run fhe_ex [tx_resubmit_ex] pending_ex) 9
              = decryptionContexts pending_ex 9"
    and p2: "decryptionContexts (run fhe_ex [] pending_ex) 9 = decryptionContexts pending_ex 9"
    by (simp_all add: example_defs run_defs)
  have differs: "hashCiphertexts fhe_ex
       (record_handles (loanApplications (run fhe_ex [tx_resubmit_ex] pending_ex) 1))
     \<noteq> stateHash (decryptionContexts pending_ex 9)"
    by (simp add: example_defs run_defs)
  have same: "record_handles (loanApplications (run fhe_ex [] pending_ex) 1)
     = record_handles (loanApplications (run fhe_ex txs_ex (constructor 1)) 1)"
    by (simp add: example_defs run_defs)
  have sig: "checkSignatures fhe_ex 9 payload_ex [1]"
    by (simp add: fhe_ex_def)
  from C2_commitment_binding [OF req refl p1, of payload_ex "[1]"] differs
  have "myCallback fhe_ex 9 payload_ex [1] (run fhe_ex [tx_resubmit_ex] pending_ex)
          = Inl StateMismatch"
    by blast
  moreover
  from C2_commitment_binding [OF req refl p2, of payload_ex "[1]" 3 4 5] same sig
    decode_payload_ex
  have "\<not> isl (myCallback fhe_ex 9 payload_ex [1] (run fhe_ex [] pending_ex))"
    by simp
  ultimately show ?thesis by simp
qed

subsection \<open>A callback for an unknown request\<close>

text \<open>
  C3 as stated fails: the contract has no \<open>UnknownRequest\<close> error. A context that was
  never stored reads as the zero context, whose batch id 0 is out of range, so the
  callback reverts with \<open>InvalidBatch\<close>. Right after deployment, the callback for
  request 7:
\<close>

theorem C3_unknown_request_counterexample:
  "myCallback fhe_ex 7 [] [] (constructor 1) = Inl InvalidBatch
   \<and> spec_error_name InvalidBatch \<noteq> ''UnknownRequest''"
  by (simp add: myCallback_def constructor_def)

text \<open>
  C3, amended. In every state reached from the constructor, for every request identifier
  under which no successful request has stored a context, the callback fails with
  \<open>InvalidBatch\<close>.
\<close>

theorem C3_unrecorded_request_fails_invalid_batch:
  assumes "rid \<notin> set (requested_ids (events (run f txs (constructor d))))"
  shows "myCallback f rid c p (run f txs (constructor d)) = Inl InvalidBatch"
proof -
  have "unrequested_empty (run f txs (constructor d))"
    by (rule run_unrequested_empty [OF constructor_unrequested_empty])
  with assms have "decryptionContexts (run f txs (constructor d)) rid = empty_context"
    by (simp add: unrequested_empty_def)
  then show ?thesis
    by (simp add: myCallback_def empty_context_def)
qed

text \<open>C3 amended, at \<open>pending_ex\<close>: request 9 is recorded there, request 7 is not.\<close>

theorem C3_unrecorded_request_witness:
  "7 \<notin> set (requested_ids (events (run fhe_ex (txs_ex @ [tx_request_ex]) (constructor 1))))
   \<and> myCallback fhe_ex 7 payload_ex [1] (run fhe_ex (txs_ex @ [tx_request_ex]) (constructor 1))
       = Inl InvalidBatch"
proof -
  have h: "7 \<notin> set (requested_ids (events
              (run fhe_ex (txs_ex @ [tx_request_ex]) (constructor 1))))"
    by (simp add: example_defs run_defs)
  from h C3_unrecorded_request_fails_invalid_batch [OF h] show ?thesis by simp
qed

subsection \<open>Atomicity\<close>

text \<open>
  C4 as stated fails in its second half: \<open>addProvider\<close> of an address that is a provider
  already succeeds and emits no event (the source guards the write and the event by
  \<open>if (!isProvider[provider])\<close>).
\<close>

theorem C4_silent_noop_counterexample:
  "\<not> isl (exec fhe_ex \<lparr>tx_sender = 1, tx_time = 100, tx_call = AddProvider 2\<rparr> open_ex)
   \<and> events (step fhe_ex \<lparr>tx_sender = 1, tx_time = 100, tx_call = AddProvider 2\<rparr> open_ex)
       = events open_ex"
  by (simp add: example_defs run_defs)

text \<open>
  C4, amended. Every external call is atomic. A call that fails, with whatever error,
  leaves the whole state as it was: storage and event log. A call that succeeds has
  applied all of its writes and appended exactly its one event, except \<open>addProvider\<close> of
  an address that already is a provider and \<open>removeProvider\<close> of an address that is not
  one, which succeed and leave the whole state as it was.
\<close>

theorem C4_atomic_operations:
  "(exec f t s = Inl e \<longrightarrow> step f t s = s)
   \<and> (exec f t s = Inr s' \<longrightarrow>
        step f t s = s'
        \<and> (if silent_noop (tx_call t) s then s' = s
           else applied f (tx_sender t) (tx_time t) (tx_call t) s s'))"
proof (cases "tx_call t")
  case (MyCallback r c p)
  then show ?thesis
    by (auto simp: step_def exec_def silent_noop_def myCallback_def aux_defs
        split: if_splits option.splits)
next
  case (RequestLoanApproval b r)
  then show ?thesis
    by (auto simp: step_def exec_def silent_noop_def requestLoanApproval_def modifier_defs
        aux_defs record_handles_def split: if_splits option.splits)
next
  case (SubmitLoanApplication a l p)
  then show ?thesis
    by (auto simp: step_def exec_def silent_noop_def submitLoanApplication_def modifier_defs
        aux_defs split: if_splits option.splits)
next
  case OpenBatch
  then show ?thesis
    by (auto simp: step_def exec_def silent_noop_def openBatch_def modifier_defs
        aux_defs split: if_splits option.splits)
qed (auto simp: step_def exec_def silent_noop_def op_defs modifier_defs aux_defs
        split: if_splits option.splits)

text \<open>
  C4 amended, at \<open>open_ex\<close>: a second \<open>openBatch\<close> fails and changes nothing;
  \<open>closeBatch\<close> succeeds and appends its event.
\<close>

theorem C4_atomic_operations_witness:
  "step fhe_ex \<lparr>tx_sender = 1, tx_time = 100, tx_call = OpenBatch\<rparr> open_ex = open_ex
   \<and> events (step fhe_ex \<lparr>tx_sender = 1, tx_time = 100, tx_call = CloseBatch\<rparr> open_ex)
       = events open_ex @ [BatchClosed 1]"
proof -
  have fails: "exec fhe_ex \<lparr>tx_sender = 1, tx_time = 100, tx_call = OpenBatch\<rparr> open_ex
                 = Inl BatchAlreadyOpen"
    by (simp add: example_defs run_defs)
  have succeeds: "exec fhe_ex \<lparr>tx_sender = 1, tx_time = 100, tx_call = CloseBatch\<rparr> open_ex
     = Inr (step fhe_ex \<lparr>tx_sender = 1, tx_time = 100, tx_call = CloseBatch\<rparr> open_ex)"
    by (simp add: example_defs run_defs)
  have cur: "currentBatchId open_ex = 1"
    by (simp add: example_defs run_defs)
  from C4_atomic_operations [of fhe_ex "\<lparr>tx_sender = 1, tx_time = 100, tx_call = OpenBatch\<rparr>"
      open_ex BatchAlreadyOpen] fails
  have "step fhe_ex \<lparr>tx_sender = 1, tx_time = 100, tx_call = OpenBatch\<rparr> open_ex = open_ex"
    by blast
  moreover
  from C4_atomic_operations [of fhe_ex "\<lparr>tx_sender = 1, tx_time = 100, tx_call = CloseBatch\<rparr>"
      open_ex _ "step fhe_ex \<lparr>tx_sender = 1, tx_time = 100, tx_call = CloseBatch\<rparr> open_ex"]
    succeeds cur
  have "events (step fhe_ex \<lparr>tx_sender = 1, tx_time = 100, tx_call = CloseBatch\<rparr> open_ex)
       = events open_ex @ [BatchClosed 1]"
    by (simp add: silent_noop_def)
  ultimately show ?thesis by simp
qed

subsection \<open>Uninitialized handles at submission\<close>

text \<open>
  C5 as stated fails: \<open>submitLoanApplication\<close> does not reject an uninitialized handle.
  \<open>_initIfNeeded\<close> has no revert; the call goes on and writes the record. A provider
  submits the zero handle with two initialized ones into the open batch 1:
\<close>

theorem C5_uninitialized_accepted_counterexample:
  "\<not> isl (submitLoanApplication 2 100 0 6 7 open_ex)
   \<and> loanApplications (step fhe_ex \<lparr>tx_sender = 2, tx_time = 100,
                                   tx_call = SubmitLoanApplication 0 6 7\<rparr> open_ex) 1
       = \<lparr>encryptedAssets = 0, encryptedLiabilities = 6, encryptedSolvencyProof = 7\<rparr>
   \<and> \<not> isInitialized 0"
  by (simp add: example_defs run_defs)

text \<open>
  C5, amended. A submission by a provider into an open batch, with the system not paused
  and the cooldown elapsed, succeeds whatever the three handles are: it writes the
  record of the current batch id, where every initialized handle is stored as supplied,
  stamps the submission time of the caller and appends one event.
\<close>

theorem C5_submit_accepts_uninitialized:
  assumes "isProvider s sender" and "\<not> paused s"
    and "unat (lastSubmissionTime s sender) + unat (cooldownSeconds s) < 2 ^ 256"
    and "\<not> now < lastSubmissionTime s sender + cooldownSeconds s"
    and "batchOpen s"
    and "s' = step f \<lparr>tx_sender = sender, tx_time = now,
                      tx_call = SubmitLoanApplication a l p\<rparr> s"
  shows "\<not> isl (submitLoanApplication sender now a l p s)
       \<and> (isInitialized a \<longrightarrow> encryptedAssets (loanApplications s' (currentBatchId s)) = a)
       \<and> (isInitialized l \<longrightarrow> encryptedLiabilities (loanApplications s' (currentBatchId s)) = l)
       \<and> (isInitialized p \<longrightarrow> encryptedSolvencyProof (loanApplications s' (currentBatchId s)) = p)
       \<and> lastSubmissionTime s' sender = now
       \<and> length (events s') = length (events s) + 1"
  using assms
  by (simp add: step_def exec_def submitLoanApplication_def modifier_defs aux_defs)

text \<open>C5 amended, at \<open>open_ex\<close>, for the handles 0, 6 and 7.\<close>

theorem C5_submit_accepts_uninitialized_witness:
  "encryptedLiabilities (loanApplications
      (step fhe_ex \<lparr>tx_sender = 2, tx_time = 150, tx_call = SubmitLoanApplication 0 6 7\<rparr>
         open_ex) 1) = 6
   \<and> lastSubmissionTime
        (step fhe_ex \<lparr>tx_sender = 2, tx_time = 150, tx_call = SubmitLoanApplication 0 6 7\<rparr>
           open_ex) 2 = 150"
proof -
  have h: "isProvider open_ex 2" "\<not> paused open_ex"
    "unat (lastSubmissionTime open_ex 2) + unat (cooldownSeconds open_ex) < 2 ^ 256"
    "\<not> 150 < lastSubmissionTime open_ex 2 + cooldownSeconds open_ex"
    "batchOpen open_ex"
    by (simp_all add: example_defs run_defs)
  have cur: "currentBatchId open_ex = 1" and init: "isInitialized 6"
    by (simp_all add: example_defs run_defs)
  from C5_submit_accepts_uninitialized
      [where f = fhe_ex and a = 0 and l = 6 and p = 7, OF h refl] cur init
  show ?thesis by simp
qed

subsection \<open>The pause gate\<close>

text \<open>
  C6 as stated fails: the owner-only role mutations carry \<open>onlyOwner\<close> and no
  \<open>whenNotPaused\<close>. While the system is paused the owner transfers the ownership:
\<close>

theorem C6_owner_mutation_while_paused_counterexample:
  "paused paused_ex \<and> owner paused_ex = 1
   \<and> transferOwnership 1 5 paused_ex =
       Inr (paused_ex\<lparr>owner := 5,
                      events := events paused_ex @ [OwnershipTransferred 1 5]\<rparr>)"
  by (simp add: example_defs run_defs)

text \<open>
  C6, amended. While the system is paused, \<open>openBatch\<close> and \<open>closeBatch\<close> fail with
  \<open>NotOwner\<close> for a caller who is not the owner and with \<open>Paused\<close> for the owner;
  \<open>submitLoanApplication\<close> and \<open>requestLoanApproval\<close> fail with \<open>NotProvider\<close> for a
  caller who is not a provider and with \<open>Paused\<close> for a provider: the pause check comes
  right after the role check. The owner-only mutations \<open>transferOwnership\<close>,
  \<open>addProvider\<close>, \<open>removeProvider\<close>, \<open>setCooldownSeconds\<close> and \<open>setPaused\<close> do not check
  the pause flag: called by the owner they succeed while paused. \<open>myCallback\<close> has no
  role check and no pause check: it does while paused what it does while not paused.
\<close>

theorem C6_pause_gate:
  assumes "paused s"
  shows "openBatch sender s = Inl (if sender \<noteq> owner s then NotOwner else Paused)
       \<and> closeBatch sender s = Inl (if sender \<noteq> owner s then NotOwner else Paused)
       \<and> submitLoanApplication sender now a l p s
           = Inl (if \<not> isProvider s sender then NotProvider else Paused)
       \<and> requestLoanApproval f sender now b r s
           = Inl (if \<not> isProvider s sender then NotProvider else Paused)
       \<and> (sender = owner s \<longrightarrow>
            \<not> isl (transferOwnership sender x s) \<and> \<not> isl (addProvider sender x s)
            \<and> \<not> isl (removeProvider sender x s) \<and> \<not> isl (setCooldownSeconds sender n s)
            \<and> \<not> isl (setPaused sender q s))
       \<and> myCallback f r c prf s
           = map_sum id (\<lambda>s'. s'\<lparr>paused := True\<rparr>) (myCallback f r c prf (s\<lparr>paused := False\<rparr>))"
  using assms
  by (simp add: op_defs modifier_defs aux_defs split: option.splits)

text \<open>C6 amended, at \<open>paused_ex\<close>.\<close>

theorem C6_pause_gate_witness:
  "openBatch 1 paused_ex = Inl Paused
   \<and> submitLoanApplication 2 200 5 6 7 paused_ex = Inl Paused
   \<and> \<not> isl (setCooldownSeconds 1 0 paused_ex)"
proof -
  have h: "paused paused_ex" and o: "owner paused_ex = 1" and p: "isProvider paused_ex 2"
    by (simp_all add: example_defs run_defs)
  from C6_pause_gate [OF h, where sender = 1 and n = 0] o
  have "openBatch 1 paused_ex = Inl Paused" "\<not> isl (setCooldownSeconds 1 0 paused_ex)"
    by simp_all
  moreover
  from C6_pause_gate [OF h, where sender = 2 and now = 200 and a = 5 and l = 6 and p = 7] p
  have "submitLoanApplication 2 200 5 6 7 paused_ex = Inl Paused"
    by simp
  ultimately show ?thesis by simp
qed

subsection \<open>Batch identifiers\<close>

text \<open>
  C7 as stated fails in its second half: the access checks of \<open>openBatch\<close> run before the
  test of \<open>batchOpen\<close>, so a caller who is not the owner gets \<open>NotOwner\<close> while a batch is
  open.
\<close>

theorem C7_double_open_not_owner_counterexample:
  "batchOpen open_ex \<and> openBatch 2 open_ex = Inl NotOwner"
  by (simp add: example_defs run_defs)

text \<open>
  C7, amended. For every sequence of transactions from the initial state (in
  particular every sequence of \<open>openBatch\<close> and \<open>closeBatch\<close> calls), the batch ids produced
  by the successful \<open>openBatch\<close> calls are strictly increasing, and no id is produced
  twice. Calling \<open>openBatch\<close> while a batch is open always fails and leaves the state
  unchanged; the error is \<open>BatchAlreadyOpen\<close> when the caller is the owner and the system
  is not paused, \<open>NotOwner\<close> for another caller, \<open>Paused\<close> for the owner while paused.
\<close>

theorem C7_batch_ids_increase:
  "sorted_wrt (<) (batch_ids f txs (constructor d))
   \<and> distinct (batch_ids f txs (constructor d))
   \<and> (batchOpen s \<longrightarrow>
        openBatch sender s =
          Inl (if sender \<noteq> owner s then NotOwner
               else if paused s then Paused else BatchAlreadyOpen)
        \<and> step f \<lparr>tx_sender = sender, tx_time = now, tx_call = OpenBatch\<rparr> s = s)"
proof -
  have inc: "sorted_wrt (<) (batch_ids f txs (constructor d))"
    by (rule batch_ids_increasing)
  then have "distinct (batch_ids f txs (constructor d))"
    by (simp add: strict_sorted_iff)
  moreover have "openBatch sender s =
          Inl (if sender \<noteq> owner s then NotOwner
               else if paused s then Paused else BatchAlreadyOpen)
        \<and> step f \<lparr>tx_sender = sender, tx_time = now, tx_call = OpenBatch\<rparr> s = s"
    if "batchOpen s"
    using that by (simp add: step_def exec_def openBatch_def modifier_defs)
  ultimately show ?thesis using inc by blast
qed

text \<open>C7 amended, at \<open>open_ex\<close>, for the owner.\<close>

theorem C7_batch_ids_increase_witness:
  "batchOpen open_ex \<and> openBatch 1 open_ex = Inl BatchAlreadyOpen"
proof -
  have h: "batchOpen open_ex" and o: "owner open_ex = 1" "\<not> paused open_ex"
    by (simp_all add: example_defs run_defs)
  from C7_batch_ids_increase [of fhe_ex "[]" 1 open_ex 1 100] h o
  show ?thesis by simp
qed

subsection \<open>Checks of a decryption request\<close>

text \<open>
  C8. A call of \<open>requestLoanApproval\<close> that passes the guard (the caller is a provider,
  the system is not paused, the decryption cooldown has elapsed) fails with
  \<open>InvalidBatch\<close> when the batch id is 0 or greater than \<open>currentBatchId\<close>; otherwise it
  fails with the revert of \<open>_requireInitialized\<close>, the specification's
  \<open>RecordIncomplete\<close>, when a handle of the record is uninitialized; otherwise it stores
  the pending context under the request identifier, stamps the decryption cooldown time
  of the caller and appends the \<open>DecryptionRequested\<close> event.
\<close>

theorem C8_request_checks:
  assumes "isProvider s sender" and "\<not> paused s"
    and "unat (lastDecryptionRequestTime s sender) + unat (cooldownSeconds s) < 2 ^ 256"
    and "\<not> now < lastDecryptionRequestTime s sender + cooldownSeconds s"
  shows "requestLoanApproval f sender now b r s =
     (if b = 0 \<or> b > currentBatchId s then Inl InvalidBatch
      else if \<not> record_initialized (loanApplications s b)
        then Inl (Error ''Ciphertext not initialized'')
      else Inr (s\<lparr>decryptionContexts := (decryptionContexts s)
                    (r := \<lparr>batchId = b,
                           stateHash = hashCiphertexts f (record_handles (loanApplications s b)),
                           processed = False\<rparr>),
                  lastDecryptionRequestTime := (lastDecryptionRequestTime s)(sender := now),
                  events := events s @ [DecryptionRequested r b]\<rparr>))
     \<and> spec_error_name (Error ''Ciphertext not initialized'') = ''RecordIncomplete''"
  using assms
  by (simp add: requestLoanApproval_def modifier_defs aux_defs record_initialized_def record_handles_def)

text \<open>C8 for the request of batch 1 after the submission of \<open>txs_ex\<close>.\<close>

theorem C8_request_checks_witness:
  "events (step fhe_ex \<lparr>tx_sender = 2, tx_time = 200, tx_call = RequestLoanApproval 1 9\<rparr>
             (run fhe_ex txs_ex (constructor 1)))
   = [OwnershipTransferred 0 1, ProviderAdded 2, BatchOpened 1,
      LoanApplicationSubmitted 2 1 5 6 7, DecryptionRequested 9 1]"
  using C8_request_checks [of "run fhe_ex txs_ex (constructor 1)" 2 200 fhe_ex 1 9]
  by (simp add: example_defs op_defs modifier_defs aux_defs record_initialized_def record_handles_def)

subsection \<open>Independent cooldown clocks\<close>

text \<open>
  C9. A successful submission sets the submission time of the caller, of no other
  address, and leaves every decryption-request time unchanged; a successful decryption
  request sets the decryption-request time of the caller, of no other address, and leaves
  every submission time unchanged.
\<close>

theorem C9_cooldown_clocks_independent:
  "(submitLoanApplication sender now a l p s = Inr s' \<longrightarrow>
      lastSubmissionTime s' = (lastSubmissionTime s)(sender := now)
      \<and> lastDecryptionRequestTime s' = lastDecryptionRequestTime s)
   \<and> (requestLoanApproval f sender now b r s = Inr s'' \<longrightarrow>
      lastDecryptionRequestTime s'' = (lastDecryptionRequestTime s)(sender := now)
      \<and> lastSubmissionTime s'' = lastSubmissionTime s)"
  by (auto simp: submitLoanApplication_def requestLoanApproval_def modifier_defs aux_defs
      split: if_splits option.splits)

text \<open>
  C9 around \<open>pending_ex\<close>: the request at time 200 kept the submission time 100 of
  provider 2, and a submission at time 300 keeps the request time 200.
\<close>

theorem C9_cooldown_clocks_independent_witness:
  "lastDecryptionRequestTime
     (step fhe_ex \<lparr>tx_sender = 2, tx_time = 300, tx_call = SubmitLoanApplication 5 6 8\<rparr>
        pending_ex) 2 = 200
   \<and> lastSubmissionTime pending_ex 2 = 100"
proof -
  have sub: "submitLoanApplication 2 300 5 6 8 pending_ex
     = Inr (step fhe_ex \<lparr>tx_sender = 2, tx_time = 300,
                          tx_call = SubmitLoanApplication 5 6 8\<rparr> pending_ex)"
    by (simp add: example_defs run_defs)
  have req: "requestLoanApproval fhe_ex 2 200 1 9 (run fhe_ex txs_ex (constructor 1))
               = Inr pending_ex"
    by (simp add: example_defs run_defs)
  have t1: "lastDecryptionRequestTime pending_ex 2 = 200"
    and t2: "lastSubmissionTime (run fhe_ex txs_ex (constructor 1)) 2 = 100"
    by (simp_all add: example_defs run_defs)
  from C9_cooldown_clocks_independent [where sender = 2 and now = 300 and a = 5 and l = 6
      and p = 8 and s = pending_ex and s' = "step fhe_ex \<lparr>tx_sender = 2, tx_time = 300,
        tx_call = SubmitLoanApplication 5 6 8\<rparr> pending_ex"] sub t1
  have "lastDecryptionRequestTime
     (step fhe_ex \<lparr>tx_sender = 2, tx_time = 300, tx_call = SubmitLoanApplication 5 6 8\<rparr>
        pending_ex) 2 = 200"
    by simp
  moreover
  from C9_cooldown_clocks_independent [where f = fhe_ex and sender = 2 and now = 200
      and b = 1 and r = 9 and s = "run fhe_ex txs_ex (constructor 1)" and s'' = pending_ex]
    req t2
  have "lastSubmissionTime pending_ex 2 = 100"
    by simp
  ultimately show ?thesis by simp
qed

subsection \<open>Transfer of ownership\<close>

text \<open>
  C10. For every address \<open>a\<close>, the zero address included, \<open>transferOwnership\<close> called by
  the owner succeeds, paused or not and without any check of \<open>a\<close>: the owner becomes \<open>a\<close>
  and \<open>OwnershipTransferred\<close> is appended. After a transfer to the zero address, whatever
  transactions follow, every owner-only call fails with \<open>NotOwner\<close>; callers are accounts,
  and no account has the zero address.
\<close>

theorem C10_transferOwnership_unchecked:
  assumes "sender = owner s"
  shows "transferOwnership sender a s =
           Inr (s\<lparr>owner := a, events := events s @ [OwnershipTransferred (owner s) a]\<rparr>)
       \<and> (list_all (\<lambda>t. tx_sender t \<noteq> 0) txs \<and> caller \<noteq> 0 \<and> owner_only c \<longrightarrow>
            exec f \<lparr>tx_sender = caller, tx_time = now, tx_call = c\<rparr>
              (run f txs (s\<lparr>owner := 0,
                           events := events s @ [OwnershipTransferred (owner s) 0]\<rparr>))
            = Inl NotOwner)"
proof -
  have first: "transferOwnership sender a s =
           Inr (s\<lparr>owner := a, events := events s @ [OwnershipTransferred (owner s) a]\<rparr>)"
    using assms by (simp add: transferOwnership_def onlyOwner_def emit_def)
  have "exec f \<lparr>tx_sender = caller, tx_time = now, tx_call = c\<rparr>
              (run f txs (s\<lparr>owner := 0,
                           events := events s @ [OwnershipTransferred (owner s) 0]\<rparr>))
            = Inl NotOwner"
    if "list_all (\<lambda>t. tx_sender t \<noteq> 0) txs" and "caller \<noteq> 0" and "owner_only c"
  proof -
    have "owner (run f txs (s\<lparr>owner := 0,
                           events := events s @ [OwnershipTransferred (owner s) 0]\<rparr>)) = 0"
      using that(1) by (simp add: run_owner_zero)
    with that(2,3) show ?thesis
      by (simp add: exec_def owner_only_NotOwner)
  qed
  with first show ?thesis by blast
qed

text \<open>
  C10 at \<open>paused_ex\<close>: the owner gives the ownership to the zero address while paused,
  and can neither take it back nor lift the pause.
\<close>

theorem C10_transferOwnership_unchecked_witness:
  "owner paused_ex = 1
   \<and> \<not> isl (transferOwnership 1 0 paused_ex)
   \<and> exec fhe_ex \<lparr>tx_sender = 1, tx_time = 500, tx_call = SetPaused False\<rparr>
       (run fhe_ex [\<lparr>tx_sender = 1, tx_time = 400, tx_call = TransferOwnership 1\<rparr>]
          (paused_ex\<lparr>owner := 0,
                     events := events paused_ex @ [OwnershipTransferred (owner paused_ex) 0]\<rparr>))
     = Inl NotOwner"
proof -
  have h: "1 = owner paused_ex"
    by (simp add: example_defs run_defs)
  from h C10_transferOwnership_unchecked [OF h, of 0
      "[\<lparr>tx_sender = 1, tx_time = 400, tx_call = TransferOwnership 1\<rparr>]" 1 "SetPaused False"
      fhe_ex 500]
  show ?thesis by simp
qed

end
